theory Spec2Isabelle
  imports Main "HOL-Library.AList"
begin

section \<open>Constants of the parser\<close>

text \<open>
  The source reads the input as an array of one-character strings (\<^verbatim>\<open>[...blob]\<close>); here it
  is a \<^typ>\<open>char list\<close>. Strings are unbounded lists: an engine's limit on the length of a
  string is outside the model.
\<close>

definition BEGIN_ARRAY :: char where "BEGIN_ARRAY = CHR 0x5B"
definition BEGIN_OBJECT :: char where "BEGIN_OBJECT = CHR 0x7B"
definition END_ARRAY :: char where "END_ARRAY = CHR 0x5D"
definition END_OBJECT :: char where "END_OBJECT = CHR 0x7D"
definition NAME_SEPARATOR :: char where "NAME_SEPARATOR = CHR 0x3A"
definition VALUE_SEPARATOR :: char where "VALUE_SEPARATOR = CHR 0x2C"

text \<open>\<^verbatim>\<open>Object.values(SYNTAX_TOKENS)\<close>, in the order of the declaration.\<close>

definition SYNTAX_TOKENS :: "char list" where
  "SYNTAX_TOKENS =
     [BEGIN_ARRAY, BEGIN_OBJECT, END_ARRAY, END_OBJECT, NAME_SEPARATOR, VALUE_SEPARATOR]"

definition QUOTATION_MARK :: char where "QUOTATION_MARK = CHR 0x22"

definition REVERSE_SOLIDUS :: char where "REVERSE_SOLIDUS = CHR 0x5C"

text \<open>\<^verbatim>\<open>Object.values(WHITESPACE_TOKENS)\<close>: space, tab, newline.\<close>

definition WHITESPACE_TOKENS :: "char list" where
  "WHITESPACE_TOKENS = [CHR 0x20, CHR 0x09, CHR 0x0A]"

datatype TokenType = BOOLEAN | STRING | NUMBER | SYNTAX

text \<open>
  \<^verbatim>\<open>TokenValue = string | boolean | number\<close>; no path of the lexer builds a number, so the
  model has the two variants that occur.
\<close>

datatype TokenValue = Str string | Bool bool

record Token =
  tok_type :: TokenType
  tok_value :: TokenValue

text \<open>
  Every \<^verbatim>\<open>throw new Error(...)\<close> of the source, by its message, and the \<^verbatim>\<open>TypeError\<close> that
  the engine raises when the code reads \<^verbatim>\<open>.type\<close> or \<^verbatim>\<open>.value\<close> of \<^verbatim>\<open>undefined\<close> (an index
  past the end of the token array).
\<close>

datatype error =
    LexerInvalidCharacter char
  | LexerUnknownBoolean
  | ParserObjectInvalidCharacter
  | ParserObjectNoTrailingCommas
  | ParserObjectMissingEnd
  | ParserArrayNoTrailingCommas
  | ParserArrayMissingEnd
  | TypeError

fun is_LexError :: "error \<Rightarrow> bool" where
  "is_LexError (LexerInvalidCharacter c) = True"
| "is_LexError LexerUnknownBoolean = True"
| "is_LexError e = False"

fun is_ParseError :: "error \<Rightarrow> bool" where
  "is_ParseError ParserObjectInvalidCharacter = True"
| "is_ParseError ParserObjectNoTrailingCommas = True"
| "is_ParseError ParserObjectMissingEnd = True"
| "is_ParseError ParserArrayNoTrailingCommas = True"
| "is_ParseError ParserArrayMissingEnd = True"
| "is_ParseError e = False"

section \<open>Reading arrays the way the engine does\<close>

text \<open>\<^verbatim>\<open>xs[i]\<close>: the element, or \<^verbatim>\<open>undefined\<close> (here \<^const>\<open>None\<close>) past the end.\<close>

definition at :: "'a list \<Rightarrow> nat \<Rightarrow> 'a option" where
  "at xs i = (if i < length xs then Some (xs ! i) else None)"

text \<open>\<^verbatim>\<open>values.includes(x)\<close> for an \<^verbatim>\<open>x\<close> that may be \<^verbatim>\<open>undefined\<close>.\<close>

fun js_includes :: "'a list \<Rightarrow> 'a option \<Rightarrow> bool" where
  "js_includes vs None = False"
| "js_includes vs (Some x) = (x \<in> set vs)"

text \<open>\<^verbatim>\<open>str += x\<close> appends the text \<^verbatim>\<open>undefined\<close> when \<^verbatim>\<open>x\<close> is \<^verbatim>\<open>undefined\<close>.\<close>

fun js_string :: "char option \<Rightarrow> string" where
  "js_string None = ''undefined''"
| "js_string (Some c) = [c]"

fun toString :: "TokenValue \<Rightarrow> string" where
  "toString (Str s) = s"
| "toString (Bool True) = ''true''"
| "toString (Bool False) = ''false''"

section \<open>The lexer\<close>

text \<open>
  The loop of \<^verbatim>\<open>lexString\<close> over its three variables. It has no exit but the \<^verbatim>\<open>break\<close> at a
  quotation mark, so it is a partial function: \<^const>\<open>None\<close> is "does not return".
\<close>

partial_function (option) lexString_loop ::
  "char list \<Rightarrow> nat \<Rightarrow> string \<Rightarrow> (nat \<times> Token) option" where
  "lexString_loop c len str =
     (if at c 0 \<noteq> Some QUOTATION_MARK \<and> at c 0 \<noteq> Some REVERSE_SOLIDUS
      then lexString_loop (tl c) (len + 1) (str @ js_string (at c 0))
      else if at c 0 \<noteq> Some REVERSE_SOLIDUS
      then Some (len, \<lparr>tok_type = STRING, tok_value = Str str\<rparr>)
      else lexString_loop (drop 2 c) (len + 2) (str @ js_string (at c 1)))"

declare lexString_loop.simps [code]

definition lexString :: "char list \<Rightarrow> (nat \<times> Token) option" where
  "lexString chars = lexString_loop chars 0 []"

definition lexBoolean :: "char list \<Rightarrow> error + Token" where
  "lexBoolean chars =
     (if take 4 chars = ''true'' \<and>
         (at chars 4 = Some VALUE_SEPARATOR \<or>
          at chars 4 = Some END_OBJECT \<or>
          at chars 4 = Some END_ARRAY \<or>
          js_includes WHITESPACE_TOKENS (at chars 5))
      then Inr \<lparr>tok_type = BOOLEAN, tok_value = Bool True\<rparr>
      else if take 5 chars = ''false'' \<and>
         (at chars 5 = Some VALUE_SEPARATOR \<or>
          at chars 5 = Some END_OBJECT \<or>
          at chars 5 = Some END_ARRAY \<or>
          js_includes WHITESPACE_TOKENS (at chars 5))
      then Inr \<lparr>tok_type = BOOLEAN, tok_value = Bool False\<rparr>
      else Inl LexerUnknownBoolean)"

lemma lexBoolean_value:
  "lexBoolean chars = Inr tok \<Longrightarrow> length (toString (tok_value tok)) > 0"
  by (auto simp: lexBoolean_def split: if_splits)

text \<open>
  The \<^verbatim>\<open>while (chars.length > 0)\<close> loop of \<^verbatim>\<open>lex\<close> over \<^verbatim>\<open>chars\<close> and \<^verbatim>\<open>tokens\<close>. The result is
  \<^const>\<open>None\<close> when \<^verbatim>\<open>lexString\<close> does not return, \<open>Some (Inl e)\<close> when an error is thrown,
  \<open>Some (Inr tokens)\<close> when the loop ends.
\<close>

function lex_loop :: "char list \<Rightarrow> Token list \<Rightarrow> (error + Token list) option" where
  "lex_loop [] tokens = Some (Inr tokens)"
| "lex_loop (c # cs) tokens =
     (if c \<in> set WHITESPACE_TOKENS then lex_loop cs tokens
      else if c \<in> set SYNTAX_TOKENS
      then lex_loop cs (tokens @ [\<lparr>tok_type = SYNTAX, tok_value = Str [c]\<rparr>])
      else if c = QUOTATION_MARK
      then (case lexString cs of
              None \<Rightarrow> None
            | Some (len, stringToken) \<Rightarrow> lex_loop (drop (len + 1) cs) (tokens @ [stringToken]))
      else if c = CHR ''t'' \<or> c = CHR ''f''
      then (case lexBoolean (c # cs) of
              Inl e \<Rightarrow> Some (Inl e)
            | Inr booleanToken \<Rightarrow>
                lex_loop (drop (length (toString (tok_value booleanToken))) (c # cs))
                  (tokens @ [booleanToken]))
      else Some (Inl (LexerInvalidCharacter c)))"
  by pat_completeness auto
termination
  by (relation "measure (\<lambda>(chars, tokens). length chars)")
     (auto dest: lexBoolean_value)

definition lex :: "string \<Rightarrow> (error + Token list) option" where
  "lex blob = lex_loop blob []"

section \<open>Values\<close>

text \<open>
  What \<^verbatim>\<open>parse\<close> returns: a string, a boolean, an array, or an object. An object is the list
  of its own properties in the order in which they were created, and its prototype when an
  assignment has replaced it (\<^const>\<open>None\<close> is the prototype every \<^verbatim>\<open>{}\<close> starts with).
  The order of creation is the order in which the engine lists the keys, except that it
  lists the keys that are array indices first, in numeric order.
\<close>

datatype Value =
    VString string
  | VBoolean bool
  | VArray "Value list"
  | VObject "(string \<times> Value) list" "Value option"

fun of_TokenValue :: "TokenValue \<Rightarrow> Value" where
  "of_TokenValue (Str s) = VString s"
| "of_TokenValue (Bool b) = VBoolean b"

text \<open>The values that are objects for the engine: arrays and objects, not strings or booleans.\<close>

fun is_object :: "Value \<Rightarrow> bool" where
  "is_object (VArray xs) = True"
| "is_object (VObject ps proto) = True"
| "is_object v = False"

text \<open>
  \<^verbatim>\<open>output[k] = v\<close> on an object made by \<^verbatim>\<open>{}\<close>. An existing own property keeps its place
  and takes the new value; a new key is added at the end. The key \<^verbatim>\<open>__proto__\<close> is the
  accessor inherited from \<^verbatim>\<open>Object.prototype\<close>: its setter creates no own property, it
  replaces the prototype when the value is an object and does nothing otherwise.
\<close>

type_synonym OutputObject = "(string \<times> Value) list \<times> Value option"

fun obj_set :: "string \<Rightarrow> Value \<Rightarrow> OutputObject \<Rightarrow> OutputObject" where
  "obj_set k v (props, proto) =
     (if k = ''__proto__'' then (props, if is_object v then Some v else proto)
      else (AList.update k v props, proto))"

text \<open>\<^verbatim>\<open>!Array.isArray(value) && Object.values(SYNTAX_TOKENS).includes(value)\<close>\<close>

fun is_syntax_value :: "Value \<Rightarrow> bool" where
  "is_syntax_value (VString s) = (s \<in> set (map (\<lambda>c. [c]) SYNTAX_TOKENS))"
| "is_syntax_value v = False"

section \<open>The parser\<close>

text \<open>
  The comma step that \<^verbatim>\<open>parseObject\<close> and \<^verbatim>\<open>parseArray\<close> share, with the closing character
  and the error as parameters:
  \<^verbatim>\<open>if (t[0].value === ",") { if (t[1].value === END) throw err; t.shift(); }\<close>
\<close>

definition skip_separator :: "char \<Rightarrow> error \<Rightarrow> Token list \<Rightarrow> error + Token list" where
  "skip_separator END err t =
     (case t of
        [] \<Rightarrow> Inl TypeError
      | t0 # r \<Rightarrow>
          if tok_value t0 = Str [VALUE_SEPARATOR]
          then (case r of
                  [] \<Rightarrow> Inl TypeError
                | t1 # r1 \<Rightarrow> if tok_value t1 = Str [END] then Inl err else Inr r)
          else Inr t)"

lemma skip_separator_length: "skip_separator END err t = Inr t' \<Longrightarrow> length t' \<le> length t"
  by (auto simp: skip_separator_def split: list.splits if_splits)

text \<open>
  \<^verbatim>\<open>parseTokens\<close>, and the loops of \<^verbatim>\<open>parseObject\<close> and \<^verbatim>\<open>parseArray\<close> over \<^verbatim>\<open>t\<close> and
  \<^verbatim>\<open>output\<close>. Each loop is cut in two at the point where the member or element has been
  stored: \<open>_loop\<close> is the body up to there, \<open>_next\<close> the rest of the body (comma, closing
  character, next round).
\<close>

function parseTokens :: "Token list \<Rightarrow> error + (Token list \<times> Value)"
  and parseObject_loop :: "Token list \<Rightarrow> OutputObject \<Rightarrow> error + (Token list \<times> Value)"
  and parseObject_next :: "Token list \<Rightarrow> OutputObject \<Rightarrow> error + (Token list \<times> Value)"
  and parseArray_loop :: "Token list \<Rightarrow> Value list \<Rightarrow> error + (Token list \<times> Value)"
  and parseArray_next :: "Token list \<Rightarrow> Value list \<Rightarrow> error + (Token list \<times> Value)"
where
  "parseTokens tokens =
     (case tokens of
        [] \<Rightarrow> Inl TypeError
      | tok # rest \<Rightarrow>
          if tok_value tok = Str [BEGIN_OBJECT] then parseObject_loop rest ([], None)
          else if tok_value tok = Str [BEGIN_ARRAY] then parseArray_loop rest []
          else Inr (rest, of_TokenValue (tok_value tok)))"
| "parseObject_loop t output =
     (case t of
        [] \<Rightarrow> Inl TypeError
      | objectKey # t1 \<Rightarrow>
          if tok_type objectKey \<noteq> STRING then Inl ParserObjectMissingEnd
          else (case t1 of
                  [] \<Rightarrow> Inl TypeError
                | colon # t2 \<Rightarrow>
                    if tok_value colon \<noteq> Str [NAME_SEPARATOR] then Inl ParserObjectInvalidCharacter
                    else (case parseTokens t2 of
                            Inl e \<Rightarrow> Inl e
                          | Inr (outputTokens, objectValue) \<Rightarrow>
                              parseObject_next outputTokens
                                (obj_set (toString (tok_value objectKey)) objectValue output))))"
| "parseObject_next t output =
     (case skip_separator END_OBJECT ParserObjectNoTrailingCommas t of
        Inl e \<Rightarrow> Inl e
      | Inr t' \<Rightarrow>
          (case t' of
             [] \<Rightarrow> Inl TypeError
           | t0 # r \<Rightarrow>
               if tok_value t0 = Str [END_OBJECT] then Inr (r, VObject (fst output) (snd output))
               else parseObject_loop t' output))"
| "parseArray_loop t output =
     (case parseTokens t of
        Inl e \<Rightarrow> Inl e
      | Inr (outputTokens, v) \<Rightarrow>
          if is_syntax_value v then Inl ParserArrayMissingEnd
          else parseArray_next outputTokens (output @ [v]))"
| "parseArray_next t output =
     (if t = [] then Inl ParserArrayMissingEnd
      else (case skip_separator END_ARRAY ParserArrayNoTrailingCommas t of
              Inl e \<Rightarrow> Inl e
            | Inr t' \<Rightarrow>
                (case t' of
                   [] \<Rightarrow> Inl TypeError
                 | t0 # r \<Rightarrow>
                     if tok_value t0 = Str [END_ARRAY] then Inr (r, VArray output)
                     else parseArray_loop t' output)))"
  by pat_completeness auto


termination
proof -
  have shorter:
    "parseTokens_parseObject_loop_parseObject_next_parseArray_loop_parseArray_next_dom
       (Inl (Inl tokens)) \<Longrightarrow> parseTokens tokens = Inr (r, v) \<Longrightarrow> length r < length tokens"
    "parseTokens_parseObject_loop_parseObject_next_parseArray_loop_parseArray_next_dom
       (Inl (Inr (t, ob))) \<Longrightarrow> parseObject_loop t ob = Inr (r, v) \<Longrightarrow> length r < length t"
    "parseTokens_parseObject_loop_parseObject_next_parseArray_loop_parseArray_next_dom
       (Inr (Inl (t, ob))) \<Longrightarrow> parseObject_next t ob = Inr (r, v) \<Longrightarrow> length r < length t"
    "parseTokens_parseObject_loop_parseObject_next_parseArray_loop_parseArray_next_dom
       (Inr (Inr (Inl (t, ar)))) \<Longrightarrow> parseArray_loop t ar = Inr (r, v) \<Longrightarrow> length r < length t"
    "parseTokens_parseObject_loop_parseObject_next_parseArray_loop_parseArray_next_dom
       (Inr (Inr (Inr (t, ar)))) \<Longrightarrow> parseArray_next t ar = Inr (r, v) \<Longrightarrow> length r < length t"
    for tokens t ob ar r v
  proof (induct tokens and t ob and t ob and t ar and t ar
      arbitrary: r v and r v and r v and r v and r v
      rule: parseTokens_parseObject_loop_parseObject_next_parseArray_loop_parseArray_next.pinduct)
    case (1 tokens)
    then show ?case
      by (fastforce simp: parseTokens.psimps split: list.splits if_splits)
  next
    case (2 t ob)
    then show ?case
      by (fastforce simp: parseObject_loop.psimps split: list.splits if_splits sum.splits)
  next
    case (3 t ob)
    then show ?case
      by (fastforce simp: parseObject_next.psimps split: list.splits if_splits sum.splits
          dest: skip_separator_length)
  next
    case (4 t ar)
    then show ?case
      by (fastforce simp: parseArray_loop.psimps split: list.splits if_splits sum.splits)
  next
    case (5 t ar)
    then show ?case
      by (fastforce simp: parseArray_next.psimps split: list.splits if_splits sum.splits
          dest: skip_separator_length)
  qed
  show ?thesis
    by (relation "measure (\<lambda>x. case x of
          Inl (Inl tokens) \<Rightarrow> 3 * length tokens
        | Inl (Inr (t, ob)) \<Rightarrow> 3 * length t + 1
        | Inr (Inl (t, ob)) \<Rightarrow> 3 * length t + 2
        | Inr (Inr (Inl (t, ar))) \<Rightarrow> 3 * length t + 1
        | Inr (Inr (Inr (t, ar))) \<Rightarrow> 3 * length t + 2)")
      (auto dest: skip_separator_length shorter(1))
qed

definition parseObject :: "Token list \<Rightarrow> error + (Token list \<times> Value)" where
  "parseObject tokens = parseObject_loop tokens ([], None)"

definition parseArray :: "Token list \<Rightarrow> error + (Token list \<times> Value)" where
  "parseArray tokens = parseArray_loop tokens []"

text \<open>\<^verbatim>\<open>parse\<close>: \<^const>\<open>None\<close> when the lexer does not return, an error, or the value.\<close>

definition parse :: "string \<Rightarrow> (error + Value) option" where
  "parse input =
     (case lex input of
        None \<Rightarrow> None
      | Some (Inl e) \<Rightarrow> Some (Inl e)
      | Some (Inr tokens) \<Rightarrow>
          (case parseTokens tokens of
             Inl e \<Rightarrow> Some (Inl e)
           | Inr (rest, v) \<Rightarrow> Some (Inr v)))"

section \<open>Empty containers\<close>

text \<open>
  C1. \<^verbatim>\<open>parse("{}")\<close> should return an empty object and \<^verbatim>\<open>parse("[]")\<close> an empty array. The
  code throws on both. In \<^verbatim>\<open>parseObject\<close> the first token \<^verbatim>\<open>}\<close> is not a string, so the loop
  breaks and the function throws "Missing expected }" with the \<^verbatim>\<open>}\<close> at hand. In
  \<^verbatim>\<open>parseArray\<close> the token \<^verbatim>\<open>]\<close> is read as a value, recognised as a syntax character, the
  loop breaks and the function throws "Missing expected ]". The same happens to an empty
  object or array anywhere in the tokens, whatever follows it.
\<close>

theorem parse_empty_containers_throw:
  "parse ''{}'' = Some (Inl ParserObjectMissingEnd) \<and>
   parse ''[]'' = Some (Inl ParserArrayMissingEnd) \<and>
   parseTokens (\<lparr>tok_type = SYNTAX, tok_value = Str ''{''\<rparr> #
                \<lparr>tok_type = SYNTAX, tok_value = Str ''}''\<rparr> # rest) =
     Inl ParserObjectMissingEnd \<and>
   parseTokens (\<lparr>tok_type = SYNTAX, tok_value = Str ''[''\<rparr> #
                \<lparr>tok_type = SYNTAX, tok_value = Str '']''\<rparr> # rest) =
     Inl ParserArrayMissingEnd"
proof -
  have a: "parse ''{}'' = Some (Inl ParserObjectMissingEnd)"
    by code_simp
  have b: "parse ''[]'' = Some (Inl ParserArrayMissingEnd)"
    by code_simp
  have c: "parseTokens (\<lparr>tok_type = SYNTAX, tok_value = Str ''{''\<rparr> #
                \<lparr>tok_type = SYNTAX, tok_value = Str ''}''\<rparr> # rest) =
     Inl ParserObjectMissingEnd"
    by (simp add: BEGIN_OBJECT_def)
  have d: "parseTokens (\<lparr>tok_type = SYNTAX, tok_value = Str ''[''\<rparr> #
                \<lparr>tok_type = SYNTAX, tok_value = Str '']''\<rparr> # rest) =
     Inl ParserArrayMissingEnd"
    by (simp add: BEGIN_OBJECT_def BEGIN_ARRAY_def SYNTAX_TOKENS_def END_ARRAY_def)
  show ?thesis
    by (rule conjI [OF a conjI [OF b conjI [OF c d]]])
qed

section \<open>Boolean literals\<close>

text \<open>
  C2. A \<^verbatim>\<open>true\<close> or \<^verbatim>\<open>false\<close> should lex exactly when the next character is \<^verbatim>\<open>,\<close> \<^verbatim>\<open>}\<close> \<^verbatim>\<open>]\<close> or
  whitespace. The \<^verbatim>\<open>false\<close> branch of \<^verbatim>\<open>lexBoolean\<close> tests \<^verbatim>\<open>chars[5]\<close>, the character after the
  literal, four times. The \<^verbatim>\<open>true\<close> branch tests \<^verbatim>\<open>chars[4]\<close> three times and then looks for
  whitespace at \<^verbatim>\<open>chars[5]\<close>, one character too far: \<^verbatim>\<open>true\<close> followed by one space and a
  bracket is rejected, and \<^verbatim>\<open>true\<close> followed by any character and then a space is accepted.
\<close>

theorem lexBoolean_true_whitespace_off_by_one:
  "lexBoolean (''true ]'' @ rest) = Inl LexerUnknownBoolean \<and>
   lexBoolean (''false ]'' @ rest) = Inr \<lparr>tok_type = BOOLEAN, tok_value = Bool False\<rparr> \<and>
   lex ''[true ]'' = Some (Inl LexerUnknownBoolean) \<and>
   lex ''[false ]'' = Some (Inr
     [\<lparr>tok_type = SYNTAX, tok_value = Str ''[''\<rparr>,
      \<lparr>tok_type = BOOLEAN, tok_value = Bool False\<rparr>,
      \<lparr>tok_type = SYNTAX, tok_value = Str '']''\<rparr>]) \<and>
   lexBoolean ''truex '' = Inr \<lparr>tok_type = BOOLEAN, tok_value = Bool True\<rparr> \<and>
   lexBoolean ''falsex '' = Inl LexerUnknownBoolean"
proof -
  have a: "lexBoolean (''true ]'' @ rest) = Inl LexerUnknownBoolean"
    by (simp add: lexBoolean_def at_def VALUE_SEPARATOR_def END_OBJECT_def END_ARRAY_def
        WHITESPACE_TOKENS_def)
  have b: "lexBoolean (''false ]'' @ rest) = Inr \<lparr>tok_type = BOOLEAN, tok_value = Bool False\<rparr>"
    by (simp add: lexBoolean_def at_def VALUE_SEPARATOR_def END_OBJECT_def END_ARRAY_def
        WHITESPACE_TOKENS_def)
  have c: "lex ''[true ]'' = Some (Inl LexerUnknownBoolean)"
    by code_simp
  have d: "lex ''[false ]'' = Some (Inr
     [\<lparr>tok_type = SYNTAX, tok_value = Str ''[''\<rparr>,
      \<lparr>tok_type = BOOLEAN, tok_value = Bool False\<rparr>,
      \<lparr>tok_type = SYNTAX, tok_value = Str '']''\<rparr>])"
    by code_simp
  have e: "lexBoolean ''truex '' = Inr \<lparr>tok_type = BOOLEAN, tok_value = Bool True\<rparr>"
    by code_simp
  have f: "lexBoolean ''falsex '' = Inl LexerUnknownBoolean"
    by code_simp
  show ?thesis
    by (rule conjI [OF a conjI [OF b conjI [OF c conjI [OF d conjI [OF e f]]]]])
qed

section \<open>An object that is not closed\<close>

text \<open>
  C5. An object that the input never closes should end in the "Missing expected }" error.
  After a member is stored, \<^verbatim>\<open>parseObject\<close> reads \<^verbatim>\<open>t[0].value\<close> without looking at the
  length of \<^verbatim>\<open>t\<close>, so at the end of the input the engine raises a \<^verbatim>\<open>TypeError\<close> instead;
  \<^verbatim>\<open>parseArray\<close> has the guard (\<^verbatim>\<open>if (!t.length) break\<close>) and reports the missing \<^verbatim>\<open>]\<close>.
  Wherever the tokens end inside an object, at a key or after a member, with whatever has
  been stored, the result is the \<^verbatim>\<open>TypeError\<close>.
\<close>

theorem parse_unclosed_object_TypeError:
  \<open>parse ''{"a":"b"'' = Some (Inl TypeError) \<and>
   parse ''{'' = Some (Inl TypeError) \<and>
   parse ''["a"'' = Some (Inl ParserArrayMissingEnd) \<and>
   parseObject_loop [] ob = Inl TypeError \<and>
   parseObject_next [] ob = Inl TypeError\<close>
proof -
  have a: \<open>parse ''{"a":"b"'' = Some (Inl TypeError)\<close>
    by code_simp
  have b: "parse ''{'' = Some (Inl TypeError)"
    by code_simp
  have c: \<open>parse ''["a"'' = Some (Inl ParserArrayMissingEnd)\<close>
    by code_simp
  have d: "parseObject_loop [] ob = Inl TypeError"
    by simp
  have e: "parseObject_next [] ob = Inl TypeError"
    by (simp add: skip_separator_def)
  show ?thesis
    by (rule conjI [OF a conjI [OF b conjI [OF c conjI [OF d e]]]])
qed

section \<open>Characters that start no token\<close>

text \<open>The characters that fall through the four tests of the \<^verbatim>\<open>lex\<close> loop to its \<^verbatim>\<open>throw\<close>.\<close>

definition cannot_start_token :: "char \<Rightarrow> bool" where
  "cannot_start_token c \<longleftrightarrow>
     c \<notin> set WHITESPACE_TOKENS \<and> c \<notin> set SYNTAX_TOKENS \<and> c \<noteq> QUOTATION_MARK \<and>
     c \<noteq> CHR ''t'' \<and> c \<noteq> CHR ''f''"

lemma lex_loop_whitespace:
  "set ws \<subseteq> set WHITESPACE_TOKENS \<Longrightarrow> lex_loop (ws @ cs) tokens = lex_loop cs tokens"
  by (induction ws) auto

lemma lex_loop_invalid:
  "cannot_start_token c \<Longrightarrow> lex_loop (c # cs) tokens = Some (Inl (LexerInvalidCharacter c))"
  by (simp add: cannot_start_token_def)

text \<open>
  C6. In whatever state the \<^verbatim>\<open>lex\<close> loop is (any tokens collected so far), when the next
  character after the whitespace is one that starts no token, \<^verbatim>\<open>lex\<close> throws the "Invalid
  character" error, and the result is that error alone, with no tokens. The digits, the
  minus sign and \<^verbatim>\<open>n\<close> are such characters; \<^verbatim>\<open>parse("[1]")\<close> and \<^verbatim>\<open>parse("{\"a\":null}")\<close>
  fail with that error.
\<close>

theorem lex_rejects_unknown_start:
  \<open>(set ws \<subseteq> set WHITESPACE_TOKENS \<and> cannot_start_token c \<longrightarrow>
      lex_loop (ws @ c # cs) tokens = Some (Inl (LexerInvalidCharacter c)) \<and>
      is_LexError (LexerInvalidCharacter c)) \<and>
   (\<forall>d \<in> set ''0123456789-n''. cannot_start_token d) \<and>
   parse ''[1]'' = Some (Inl (LexerInvalidCharacter CHR ''1'')) \<and>
   parse ''{"a":null}'' = Some (Inl (LexerInvalidCharacter CHR ''n''))\<close>
proof -
  have digits: "\<forall>d \<in> set ''0123456789-n''. cannot_start_token d"
    by (simp add: cannot_start_token_def WHITESPACE_TOKENS_def SYNTAX_TOKENS_def
        BEGIN_ARRAY_def BEGIN_OBJECT_def END_ARRAY_def END_OBJECT_def NAME_SEPARATOR_def
        VALUE_SEPARATOR_def QUOTATION_MARK_def)
  have one: "parse ''[1]'' = Some (Inl (LexerInvalidCharacter CHR ''1''))"
    by code_simp
  have null: \<open>parse ''{"a":null}'' = Some (Inl (LexerInvalidCharacter CHR ''n''))\<close>
    by code_simp
  have main: "set ws \<subseteq> set WHITESPACE_TOKENS \<and> cannot_start_token c \<longrightarrow>
      lex_loop (ws @ c # cs) tokens = Some (Inl (LexerInvalidCharacter c)) \<and>
      is_LexError (LexerInvalidCharacter c)"
    by (simp add: lex_loop_whitespace lex_loop_invalid del: lex_loop.simps)
  show ?thesis
    by (rule conjI [OF main conjI [OF digits conjI [OF one null]]])
qed

theorem lex_rejects_unknown_start_witness:
  \<open>set '' '' \<subseteq> set WHITESPACE_TOKENS \<and> cannot_start_token CHR ''-'' \<and>
   lex_loop ('' '' @ CHR ''-'' # ''1]'') [\<lparr>tok_type = SYNTAX, tok_value = Str ''[''\<rparr>] =
     Some (Inl (LexerInvalidCharacter CHR ''-''))\<close>
  using lex_rejects_unknown_start
    [of "'' ''" "CHR ''-''" "''1]''" "[\<lparr>tok_type = SYNTAX, tok_value = Str ''[''\<rparr>]"]
  by (simp add: WHITESPACE_TOKENS_def)

section \<open>String literals\<close>

text \<open>
  The body of a string literal as the claim describes it: a sequence of pieces, each a plain
  character (neither the quotation mark nor the backslash) or a backslash followed by any
  one character. \<^term>\<open>literal_text\<close> is the text of the body, \<^term>\<open>piece_char\<close> what a piece
  contributes to the value.
\<close>

datatype piece = Plain char | Escape char

fun piece_text :: "piece \<Rightarrow> string" where
  "piece_text (Plain c) = [c]"
| "piece_text (Escape c) = [REVERSE_SOLIDUS, c]"

fun piece_char :: "piece \<Rightarrow> char" where
  "piece_char (Plain c) = c"
| "piece_char (Escape c) = c"

fun piece_ok :: "piece \<Rightarrow> bool" where
  "piece_ok (Plain c) = (c \<noteq> QUOTATION_MARK \<and> c \<noteq> REVERSE_SOLIDUS)"
| "piece_ok (Escape c) = True"

definition literal_text :: "piece list \<Rightarrow> string" where
  "literal_text ps = concat (map piece_text ps)"

lemma at_simps [simp]:
  "at [] i = None"
  "at (x # xs) 0 = Some x"
  "at (x # xs) (Suc i) = at xs i"
  by (simp_all add: at_def)

lemma quote_not_solidus [simp]: "QUOTATION_MARK \<noteq> REVERSE_SOLIDUS"
  by (simp add: QUOTATION_MARK_def REVERSE_SOLIDUS_def)

lemma lexString_loop_quote:
  "lexString_loop (QUOTATION_MARK # rest) len str =
     Some (len, \<lparr>tok_type = STRING, tok_value = Str str\<rparr>)"
  by (subst lexString_loop.simps) simp

lemma lexString_loop_plain:
  "c \<noteq> QUOTATION_MARK \<Longrightarrow> c \<noteq> REVERSE_SOLIDUS \<Longrightarrow>
   lexString_loop (c # cs) len str = lexString_loop cs (len + 1) (str @ [c])"
  by (subst lexString_loop.simps) simp

lemma lexString_loop_escape:
  "lexString_loop (REVERSE_SOLIDUS # c # cs) len str = lexString_loop cs (len + 2) (str @ [c])"
  by (subst lexString_loop.simps) simp

lemma lexString_loop_pieces:
  "list_all piece_ok ps \<Longrightarrow>
   lexString_loop (literal_text ps @ QUOTATION_MARK # rest) len str =
     Some (len + length (literal_text ps),
           \<lparr>tok_type = STRING, tok_value = Str (str @ map piece_char ps)\<rparr>)"
proof (induction ps arbitrary: len str)
  case Nil
  then show ?case by (simp add: literal_text_def lexString_loop_quote)
next
  case (Cons p ps)
  then show ?case
    by (cases p)
      (simp_all add: literal_text_def lexString_loop_plain lexString_loop_escape)
qed

lemma lex_loop_quote:
  "lex_loop (QUOTATION_MARK # cs) tokens =
     (case lexString cs of
        None \<Rightarrow> None
      | Some (len, stringToken) \<Rightarrow> lex_loop (drop (len + 1) cs) (tokens @ [stringToken]))"
  by (simp add: WHITESPACE_TOKENS_def SYNTAX_TOKENS_def
        BEGIN_ARRAY_def BEGIN_OBJECT_def END_ARRAY_def END_OBJECT_def NAME_SEPARATOR_def
        VALUE_SEPARATOR_def QUOTATION_MARK_def)

text \<open>
  \<^term>\<open>closes cs\<close>: the text \<open>cs\<close> after an opening quotation mark has an unescaped
  closing quotation mark. \<^term>\<open>after_close cs\<close> is the text after that mark, and
  \<^term>\<open>strings_closed cs\<close> says that every opening quotation mark of \<open>cs\<close>, found from left
  to right, has its closing mark.
\<close>

fun closes :: "char list \<Rightarrow> bool" where
  "closes [] = False"
| "closes [c] = (c = QUOTATION_MARK)"
| "closes (c # d # cs) =
     (if c = QUOTATION_MARK then True
      else if c = REVERSE_SOLIDUS then closes cs
      else closes (d # cs))"

fun after_close :: "char list \<Rightarrow> char list" where
  "after_close [] = []"
| "after_close [c] = []"
| "after_close (c # d # cs) =
     (if c = QUOTATION_MARK then d # cs
      else if c = REVERSE_SOLIDUS then after_close cs
      else after_close (d # cs))"



lemma lexString_loop_returns_closes:
  assumes "lexString_loop c len str = Some r"
  shows "closes c"
proof (rule lexString_loop.raw_induct [where P = "\<lambda>c len str r. closes c", OF _ assms])
  fix f :: "char list \<Rightarrow> nat \<Rightarrow> string \<Rightarrow> (nat \<times> Token) option" and c len str r
  assume IH: "\<And>c len str r. f c len str = Some r \<Longrightarrow> closes c"
    and step: "(if at c 0 \<noteq> Some QUOTATION_MARK \<and> at c 0 \<noteq> Some REVERSE_SOLIDUS
      then f (tl c) (len + 1) (str @ js_string (at c 0))
      else if at c 0 \<noteq> Some REVERSE_SOLIDUS
      then Some (len, \<lparr>tok_type = STRING, tok_value = Str str\<rparr>)
      else f (drop 2 c) (len + 2) (str @ js_string (at c 1))) = Some r"
  have never: "f [] l s \<noteq> Some q" for l s q
    using IH [of "[]" l s q] by auto
  show "closes c"
  proof (cases c rule: closes.cases)
    case 1
    with step never show ?thesis by (simp split: if_splits)
  next
    case (2 x)
    with step never show ?thesis by (simp split: if_splits)
  next
    case (3 x y cs)
    with step show ?thesis by (auto split: if_splits dest: IH)
  qed
qed

lemma closes_literal:
  "closes cs \<Longrightarrow>
   \<exists>ps. list_all piece_ok ps \<and> cs = literal_text ps @ QUOTATION_MARK # after_close cs"
proof (induction cs rule: closes.induct)
  case 1
  then show ?case by simp
next
  case (2 c)
  then have "list_all piece_ok [] \<and> [c] = literal_text [] @ QUOTATION_MARK # after_close [c]"
    by (simp add: literal_text_def)
  then show ?case by blast
next
  case (3 c d cs)
  show ?case
  proof (cases "c = QUOTATION_MARK")
    case True
    then have "list_all piece_ok [] \<and>
        c # d # cs = literal_text [] @ QUOTATION_MARK # after_close (c # d # cs)"
      by (simp add: literal_text_def)
    then show ?thesis by blast
  next
    case notq: False
    show ?thesis
    proof (cases "c = REVERSE_SOLIDUS")
      case True
      with 3 notq obtain ps where
        ps: "list_all piece_ok ps" "cs = literal_text ps @ QUOTATION_MARK # after_close cs"
        by auto
      have "list_all piece_ok (Escape d # ps)" using ps by simp
      moreover have "c # d # cs =
          literal_text (Escape d # ps) @ QUOTATION_MARK # after_close (c # d # cs)"
        using ps(2) True notq by (simp add: literal_text_def)
      ultimately show ?thesis by blast
    next
      case False
      with 3 notq obtain ps where
        ps: "list_all piece_ok ps" "d # cs = literal_text ps @ QUOTATION_MARK # after_close (d # cs)"
        by auto
      have "list_all piece_ok (Plain c # ps)" using ps False notq by simp
      moreover have "c # d # cs =
          literal_text (Plain c # ps) @ QUOTATION_MARK # after_close (c # d # cs)"
        using ps(2) False notq by (simp add: literal_text_def)
      ultimately show ?thesis by blast
    qed
  qed
qed

lemma closes_lexString:
  assumes "closes cs"
  shows "\<exists>len tok. lexString cs = Some (len, tok) \<and> drop (len + 1) cs = after_close cs"
proof -
  from closes_literal [OF assms] obtain ps where
    ps: "list_all piece_ok ps" "cs = literal_text ps @ QUOTATION_MARK # after_close cs"
    by blast
  have "lexString (literal_text ps @ QUOTATION_MARK # after_close cs) =
      Some (length (literal_text ps), \<lparr>tok_type = STRING, tok_value = Str (map piece_char ps)\<rparr>)"
    using ps(1) by (simp add: lexString_def lexString_loop_pieces)
  moreover have "drop (length (literal_text ps) + 1)
      (literal_text ps @ QUOTATION_MARK # after_close cs) = after_close cs"
    by simp
  ultimately show ?thesis using ps(2) by metis
qed

lemma lexString_returns_iff: "(\<exists>r. lexString cs = Some r) \<longleftrightarrow> closes cs"
proof
  assume "\<exists>r. lexString cs = Some r"
  then show "closes cs"
    unfolding lexString_def by (blast intro: lexString_loop_returns_closes)
next
  assume "closes cs"
  from closes_lexString [OF this] show "\<exists>r. lexString cs = Some r" by blast
qed

text \<open>
  C7. For a string literal (opening quotation mark, pieces, closing quotation mark, anything
  after), \<^verbatim>\<open>lexString\<close> returns the token whose value has, for each plain character, that
  character, and for each backslash escape the one character after the backslash, whatever
  it is; the length it returns is that of the body, and \<^verbatim>\<open>lex\<close> goes on after the closing
  quotation mark, which is not part of the value. Every text on which \<^verbatim>\<open>lexString\<close> returns
  is such a literal: pieces, then a quotation mark. \<^verbatim>\<open>parse\<close> of \<^verbatim>\<open>["x\"y"]\<close> is the array
  with the three-character string \<^verbatim>\<open>x"y\<close>.
\<close>

theorem lexString_unescapes:
  \<open>(list_all piece_ok ps \<longrightarrow>
      lexString (literal_text ps @ QUOTATION_MARK # rest) =
        Some (length (literal_text ps), \<lparr>tok_type = STRING, tok_value = Str (map piece_char ps)\<rparr>) \<and>
      lex_loop (QUOTATION_MARK # literal_text ps @ QUOTATION_MARK # rest) tokens =
        lex_loop rest (tokens @ [\<lparr>tok_type = STRING, tok_value = Str (map piece_char ps)\<rparr>])) \<and>
   ((\<exists>r. lexString cs = Some r) \<longrightarrow>
      (\<exists>qs rest'. list_all piece_ok qs \<and> cs = literal_text qs @ QUOTATION_MARK # rest')) \<and>
   parse (''["x'' @ [REVERSE_SOLIDUS, QUOTATION_MARK] @ ''y"]'') =
     Some (Inr (VArray [VString [CHR ''x'', QUOTATION_MARK, CHR ''y'']]))\<close>
proof -
  have ex: \<open>parse (''["x'' @ [REVERSE_SOLIDUS, QUOTATION_MARK] @ ''y"]'') =
     Some (Inr (VArray [VString [CHR ''x'', QUOTATION_MARK, CHR ''y'']]))\<close>
    by code_simp
  have main: "list_all piece_ok ps \<longrightarrow>
      lexString (literal_text ps @ QUOTATION_MARK # rest) =
        Some (length (literal_text ps), \<lparr>tok_type = STRING, tok_value = Str (map piece_char ps)\<rparr>) \<and>
      lex_loop (QUOTATION_MARK # literal_text ps @ QUOTATION_MARK # rest) tokens =
        lex_loop rest (tokens @ [\<lparr>tok_type = STRING, tok_value = Str (map piece_char ps)\<rparr>])"
    by (simp add: lex_loop_quote lexString_def lexString_loop_pieces del: lex_loop.simps)
  have every: "(\<exists>r. lexString cs = Some r) \<longrightarrow>
      (\<exists>qs rest'. list_all piece_ok qs \<and> cs = literal_text qs @ QUOTATION_MARK # rest')"
  proof
    assume "\<exists>r. lexString cs = Some r"
    then have "closes cs" using lexString_returns_iff [of cs] by blast
    from closes_literal [OF this]
    show "\<exists>qs rest'. list_all piece_ok qs \<and> cs = literal_text qs @ QUOTATION_MARK # rest'"
      by blast
  qed
  show ?thesis by (rule conjI [OF main conjI [OF every ex]])
qed

theorem lexString_unescapes_witness:
  \<open>list_all piece_ok [Plain CHR ''a'', Escape CHR ''n'', Escape QUOTATION_MARK, Escape CHR ''u''] \<and>
   lexString (''a'' @ [REVERSE_SOLIDUS] @ ''n'' @ [REVERSE_SOLIDUS, QUOTATION_MARK, REVERSE_SOLIDUS] @ ''u''
       @ QUOTATION_MARK # ''}'') =
     Some (7, \<lparr>tok_type = STRING, tok_value = Str (''an'' @ [QUOTATION_MARK] @ ''u'')\<rparr>) \<and>
   (\<exists>r. lexString (''a'' @ [QUOTATION_MARK] @ ''b'') = Some r) \<and>
   (\<exists>qs rest'. list_all piece_ok qs \<and>
      ''a'' @ [QUOTATION_MARK] @ ''b'' = literal_text qs @ QUOTATION_MARK # rest')\<close>
proof -
  have "closes (''a'' @ [QUOTATION_MARK] @ ''b'')"
    by (simp add: QUOTATION_MARK_def REVERSE_SOLIDUS_def)
  then have r: "\<exists>r. lexString (''a'' @ [QUOTATION_MARK] @ ''b'') = Some r"
    using lexString_returns_iff [of "''a'' @ [QUOTATION_MARK] @ ''b''"] by blast
  have a: "list_all piece_ok [Plain CHR ''a'', Escape CHR ''n'', Escape QUOTATION_MARK, Escape CHR ''u'']
     \<and> lexString (''a'' @ [REVERSE_SOLIDUS] @ ''n'' @ [REVERSE_SOLIDUS, QUOTATION_MARK, REVERSE_SOLIDUS] @ ''u''
       @ QUOTATION_MARK # ''}'') =
     Some (7, \<lparr>tok_type = STRING, tok_value = Str (''an'' @ [QUOTATION_MARK] @ ''u'')\<rparr>)"
    using lexString_unescapes
      [of "[Plain CHR ''a'', Escape CHR ''n'', Escape QUOTATION_MARK, Escape CHR ''u'']" "''}''" "[]" "[]"]
    by (simp add: literal_text_def QUOTATION_MARK_def REVERSE_SOLIDUS_def)
  have b: "\<exists>qs rest'. list_all piece_ok qs \<and>
      ''a'' @ [QUOTATION_MARK] @ ''b'' = literal_text qs @ QUOTATION_MARK # rest'"
    using r lexString_unescapes [of "[]" "[]" "[]" "''a'' @ [QUOTATION_MARK] @ ''b''"]
    by blast
  show ?thesis using a r b by blast
qed

section \<open>String literals that are not closed\<close>










section \<open>Trailing commas\<close>

lemma parseObject_next_trailing:
  "tok_value c = Str [VALUE_SEPARATOR] \<Longrightarrow> tok_value e = Str [END_OBJECT] \<Longrightarrow>
   parseObject_next (c # e # rest) output = Inl ParserObjectNoTrailingCommas"
  by (simp add: skip_separator_def)

lemma parseArray_next_trailing:
  "tok_value c = Str [VALUE_SEPARATOR] \<Longrightarrow> tok_value e = Str [END_ARRAY] \<Longrightarrow>
   parseArray_next (c # e # rest) output = Inl ParserArrayNoTrailingCommas"
  by (simp add: skip_separator_def)

text \<open>
  C4. At the point of either loop where a member or element has been stored, whenever the
  next token has the value \<^verbatim>\<open>,\<close> and the one after it the value of the closing character
  (\<^verbatim>\<open>}\<close> in \<^verbatim>\<open>parseObject\<close>, \<^verbatim>\<open>]\<close> in \<^verbatim>\<open>parseArray\<close>), the function throws "No trailing
  commas allowed" and returns no value; so does the round of the loop that reads a member
  (key, colon, value) or an element followed by these two tokens. \<^verbatim>\<open>parse\<close> of
  \<^verbatim>\<open>{"a":"b",}\<close> and of \<^verbatim>\<open>["a",]\<close> fail with that error.
\<close>

theorem trailing_comma_rejected:
  \<open>(tok_value c = Str [VALUE_SEPARATOR] \<and> tok_value e = Str [END_OBJECT] \<longrightarrow>
      parseObject_next (c # e # rest) ob = Inl ParserObjectNoTrailingCommas \<and>
      (tok_type k = STRING \<and> tok_value colon = Str [NAME_SEPARATOR] \<and>
       parseTokens ts = Inr (c # e # rest, v) \<longrightarrow>
         parseObject_loop (k # colon # ts) ob = Inl ParserObjectNoTrailingCommas)) \<and>
   (tok_value c' = Str [VALUE_SEPARATOR] \<and> tok_value e' = Str [END_ARRAY] \<longrightarrow>
      parseArray_next (c' # e' # rest') ar = Inl ParserArrayNoTrailingCommas \<and>
      (parseTokens ts' = Inr (c' # e' # rest', v') \<and> \<not> is_syntax_value v' \<longrightarrow>
         parseArray_loop ts' ar = Inl ParserArrayNoTrailingCommas)) \<and>
   parse ''{"a":"b",}'' = Some (Inl ParserObjectNoTrailingCommas) \<and>
   parse ''["a",]'' = Some (Inl ParserArrayNoTrailingCommas) \<and>
   is_ParseError ParserObjectNoTrailingCommas \<and> is_ParseError ParserArrayNoTrailingCommas\<close>
proof -
  have a: "tok_value c = Str [VALUE_SEPARATOR] \<and> tok_value e = Str [END_OBJECT] \<longrightarrow>
      parseObject_next (c # e # rest) ob = Inl ParserObjectNoTrailingCommas \<and>
      (tok_type k = STRING \<and> tok_value colon = Str [NAME_SEPARATOR] \<and>
       parseTokens ts = Inr (c # e # rest, v) \<longrightarrow>
         parseObject_loop (k # colon # ts) ob = Inl ParserObjectNoTrailingCommas)"
    by (simp add: parseObject_next_trailing
        del: parseObject_next.simps parseTokens.simps)
  have b: "tok_value c' = Str [VALUE_SEPARATOR] \<and> tok_value e' = Str [END_ARRAY] \<longrightarrow>
      parseArray_next (c' # e' # rest') ar = Inl ParserArrayNoTrailingCommas \<and>
      (parseTokens ts' = Inr (c' # e' # rest', v') \<and> \<not> is_syntax_value v' \<longrightarrow>
         parseArray_loop ts' ar = Inl ParserArrayNoTrailingCommas)"
    by (simp add: parseArray_next_trailing
        del: parseArray_next.simps parseTokens.simps)
  have c: \<open>parse ''{"a":"b",}'' = Some (Inl ParserObjectNoTrailingCommas)\<close>
    by code_simp
  have d: \<open>parse ''["a",]'' = Some (Inl ParserArrayNoTrailingCommas)\<close>
    by code_simp
  show ?thesis
    using a b c d by simp
qed

theorem trailing_comma_rejected_witness:
  \<open>parseTokens
      [\<lparr>tok_type = STRING, tok_value = Str ''b''\<rparr>,
       \<lparr>tok_type = SYNTAX, tok_value = Str '',''\<rparr>,
       \<lparr>tok_type = SYNTAX, tok_value = Str ''}''\<rparr>] =
     Inr ([\<lparr>tok_type = SYNTAX, tok_value = Str '',''\<rparr>,
           \<lparr>tok_type = SYNTAX, tok_value = Str ''}''\<rparr>], VString ''b'') \<and>
   parseObject_loop
      [\<lparr>tok_type = STRING, tok_value = Str ''a''\<rparr>,
       \<lparr>tok_type = SYNTAX, tok_value = Str '':''\<rparr>,
       \<lparr>tok_type = STRING, tok_value = Str ''b''\<rparr>,
       \<lparr>tok_type = SYNTAX, tok_value = Str '',''\<rparr>,
       \<lparr>tok_type = SYNTAX, tok_value = Str ''}''\<rparr>] ([], None) =
     Inl ParserObjectNoTrailingCommas \<and>
   parseTokens
      [\<lparr>tok_type = BOOLEAN, tok_value = Bool True\<rparr>,
       \<lparr>tok_type = SYNTAX, tok_value = Str '',''\<rparr>,
       \<lparr>tok_type = SYNTAX, tok_value = Str '']''\<rparr>] =
     Inr ([\<lparr>tok_type = SYNTAX, tok_value = Str '',''\<rparr>,
           \<lparr>tok_type = SYNTAX, tok_value = Str '']''\<rparr>], VBoolean True) \<and>
   \<not> is_syntax_value (VBoolean True) \<and>
   parseArray_loop
      [\<lparr>tok_type = BOOLEAN, tok_value = Bool True\<rparr>,
       \<lparr>tok_type = SYNTAX, tok_value = Str '',''\<rparr>,
       \<lparr>tok_type = SYNTAX, tok_value = Str '']''\<rparr>] [] =
     Inl ParserArrayNoTrailingCommas\<close>
proof -
  have p1: \<open>parseTokens
      [\<lparr>tok_type = STRING, tok_value = Str ''b''\<rparr>,
       \<lparr>tok_type = SYNTAX, tok_value = Str '',''\<rparr>,
       \<lparr>tok_type = SYNTAX, tok_value = Str ''}''\<rparr>] =
     Inr ([\<lparr>tok_type = SYNTAX, tok_value = Str '',''\<rparr>,
           \<lparr>tok_type = SYNTAX, tok_value = Str ''}''\<rparr>], VString ''b'')\<close>
    by code_simp
  have p2: \<open>parseTokens
      [\<lparr>tok_type = BOOLEAN, tok_value = Bool True\<rparr>,
       \<lparr>tok_type = SYNTAX, tok_value = Str '',''\<rparr>,
       \<lparr>tok_type = SYNTAX, tok_value = Str '']''\<rparr>] =
     Inr ([\<lparr>tok_type = SYNTAX, tok_value = Str '',''\<rparr>,
           \<lparr>tok_type = SYNTAX, tok_value = Str '']''\<rparr>], VBoolean True)\<close>
    by code_simp
  show ?thesis
    using p1 p2 trailing_comma_rejected
      [of "\<lparr>tok_type = SYNTAX, tok_value = Str '',''\<rparr>"
          "\<lparr>tok_type = SYNTAX, tok_value = Str ''}''\<rparr>"
          "[]" "([], None)"
          "\<lparr>tok_type = STRING, tok_value = Str ''a''\<rparr>"
          "\<lparr>tok_type = SYNTAX, tok_value = Str '':''\<rparr>"
          "[\<lparr>tok_type = STRING, tok_value = Str ''b''\<rparr>,
            \<lparr>tok_type = SYNTAX, tok_value = Str '',''\<rparr>,
            \<lparr>tok_type = SYNTAX, tok_value = Str ''}''\<rparr>]"
          "VString ''b''"
          "\<lparr>tok_type = SYNTAX, tok_value = Str '',''\<rparr>"
          "\<lparr>tok_type = SYNTAX, tok_value = Str '']''\<rparr>"
          "[]" "[]"
          "[\<lparr>tok_type = BOOLEAN, tok_value = Bool True\<rparr>,
            \<lparr>tok_type = SYNTAX, tok_value = Str '',''\<rparr>,
            \<lparr>tok_type = SYNTAX, tok_value = Str '']''\<rparr>]"
          "VBoolean True"]
    by (simp add: VALUE_SEPARATOR_def END_OBJECT_def END_ARRAY_def NAME_SEPARATOR_def
        del: parseTokens.simps parseObject_loop.simps parseArray_loop.simps
             parseObject_next.simps parseArray_next.simps)
qed

section \<open>Values written as tokens\<close>

text \<open>
  A value as an input writes it, token by token: a string, a boolean, an array of written
  values, an object of members (key and written value). The second list of an array or
  object says, for each gap between two neighbours, whether a \<^verbatim>\<open>,\<close> token stands there;
  where the list is too short a comma stands. Keys may repeat.
\<close>

datatype doc =
    DString string
  | DBoolean bool
  | DArray "doc list" "bool list"
  | DObject "(string \<times> doc) list" "bool list"

fun comma :: "bool list \<Rightarrow> bool" where
  "comma [] = True"
| "comma (c # cs) = c"

fun separated :: "bool list \<Rightarrow> Token list list \<Rightarrow> Token list" where
  "separated cs [] = []"
| "separated cs [x] = x"
| "separated cs (x # y # xs) =
     x @ (if comma cs then [\<lparr>tok_type = SYNTAX, tok_value = Str [VALUE_SEPARATOR]\<rparr>] else [])
       @ separated (tl cs) (y # xs)"

text \<open>The tokens of a written value, as \<^verbatim>\<open>lex\<close> produces them.\<close>

fun toks :: "doc \<Rightarrow> Token list" where
  "toks (DString s) = [\<lparr>tok_type = STRING, tok_value = Str s\<rparr>]"
| "toks (DBoolean b) = [\<lparr>tok_type = BOOLEAN, tok_value = Bool b\<rparr>]"
| "toks (DArray ds cs) =
     \<lparr>tok_type = SYNTAX, tok_value = Str [BEGIN_ARRAY]\<rparr> #
     separated cs (map toks ds) @ [\<lparr>tok_type = SYNTAX, tok_value = Str [END_ARRAY]\<rparr>]"
| "toks (DObject ms cs) =
     \<lparr>tok_type = SYNTAX, tok_value = Str [BEGIN_OBJECT]\<rparr> #
     separated cs (map (\<lambda>m. \<lparr>tok_type = STRING, tok_value = Str (fst m)\<rparr> #
                              \<lparr>tok_type = SYNTAX, tok_value = Str [NAME_SEPARATOR]\<rparr> #
                              toks (snd m)) ms)
       @ [\<lparr>tok_type = SYNTAX, tok_value = Str [END_OBJECT]\<rparr>]"





lemmas parser_simps =
  parseTokens.simps parseObject_loop.simps parseObject_next.simps
  parseArray_loop.simps parseArray_next.simps

declare parser_simps [simp del]

lemma syntax_chars_neq [simp]:
  "BEGIN_ARRAY \<noteq> BEGIN_OBJECT"
  "BEGIN_ARRAY \<noteq> END_ARRAY"
  "BEGIN_ARRAY \<noteq> END_OBJECT"
  "BEGIN_ARRAY \<noteq> NAME_SEPARATOR"
  "BEGIN_ARRAY \<noteq> VALUE_SEPARATOR"
  "BEGIN_OBJECT \<noteq> BEGIN_ARRAY"
  "BEGIN_OBJECT \<noteq> END_ARRAY"
  "BEGIN_OBJECT \<noteq> END_OBJECT"
  "BEGIN_OBJECT \<noteq> NAME_SEPARATOR"
  "BEGIN_OBJECT \<noteq> VALUE_SEPARATOR"
  "END_ARRAY \<noteq> BEGIN_ARRAY"
  "END_ARRAY \<noteq> BEGIN_OBJECT"
  "END_ARRAY \<noteq> END_OBJECT"
  "END_ARRAY \<noteq> NAME_SEPARATOR"
  "END_ARRAY \<noteq> VALUE_SEPARATOR"
  "END_OBJECT \<noteq> BEGIN_ARRAY"
  "END_OBJECT \<noteq> BEGIN_OBJECT"
  "END_OBJECT \<noteq> END_ARRAY"
  "END_OBJECT \<noteq> NAME_SEPARATOR"
  "END_OBJECT \<noteq> VALUE_SEPARATOR"
  "NAME_SEPARATOR \<noteq> BEGIN_ARRAY"
  "NAME_SEPARATOR \<noteq> BEGIN_OBJECT"
  "NAME_SEPARATOR \<noteq> END_ARRAY"
  "NAME_SEPARATOR \<noteq> END_OBJECT"
  "NAME_SEPARATOR \<noteq> VALUE_SEPARATOR"
  "VALUE_SEPARATOR \<noteq> BEGIN_ARRAY"
  "VALUE_SEPARATOR \<noteq> BEGIN_OBJECT"
  "VALUE_SEPARATOR \<noteq> END_ARRAY"
  "VALUE_SEPARATOR \<noteq> END_OBJECT"
  "VALUE_SEPARATOR \<noteq> NAME_SEPARATOR"
  by (simp_all add: BEGIN_ARRAY_def BEGIN_OBJECT_def END_ARRAY_def END_OBJECT_def
      NAME_SEPARATOR_def VALUE_SEPARATOR_def)












lemma toks_first:
  "\<exists>t ts. toks d = t # ts \<and>
     tok_value t = (case d of DString s \<Rightarrow> Str s | DBoolean b \<Rightarrow> Bool b
                    | DArray ds cs \<Rightarrow> Str [BEGIN_ARRAY] | DObject ms cs \<Rightarrow> Str [BEGIN_OBJECT])"
  by (cases d) simp_all






section \<open>Commas between members and elements\<close>










section \<open>The reference encoder\<close>









definition delimited :: "string \<Rightarrow> bool" where
  "delimited rest \<longleftrightarrow>
     (\<exists>c r. rest = c # r \<and> (c = VALUE_SEPARATOR \<or> c = END_OBJECT \<or> c = END_ARRAY))"









lemma delimited_simps [simp]:
  "delimited (VALUE_SEPARATOR # r)" "delimited (END_ARRAY # r)" "delimited (END_OBJECT # r)"
  by (simp_all add: delimited_def)

lemma syntax_members [simp]:
  "BEGIN_ARRAY \<in> set SYNTAX_TOKENS" "BEGIN_OBJECT \<in> set SYNTAX_TOKENS"
  "END_ARRAY \<in> set SYNTAX_TOKENS" "END_OBJECT \<in> set SYNTAX_TOKENS"
  "NAME_SEPARATOR \<in> set SYNTAX_TOKENS" "VALUE_SEPARATOR \<in> set SYNTAX_TOKENS"
  by (simp_all add: SYNTAX_TOKENS_def)





section \<open>Repeated keys\<close>

















section \<open>Encoding a value and parsing it back\<close>

















end
